theory Spec2Isabelle
  imports
    Main
    "HOL-Library.Char_ord"
    "HOL-Library.List_Lexorder"
    "HOL-Library.Product_Lexorder"
    "HOL-Library.Multiset"
begin

section \<open>Text primitives of the interpreter\<close>

text \<open>
  The ingestion script \<^verbatim>\<open>append_il_ts.py\<close> reads count files as Python \<^verbatim>\<open>str\<close>
  values and works on them with \<^verbatim>\<open>str.strip\<close>, \<^verbatim>\<open>str.splitlines\<close>,
  \<^verbatim>\<open>str.split\<close>, \<^verbatim>\<open>re.match\<close> and \<^verbatim>\<open>int\<close>. A \<^typ>\<open>char\<close> stands for one
  code point below 256, so the model covers texts whose code points lie in that range. In
  that range the decimal digits of \<^verbatim>\<open>\d\<close> and of \<^verbatim>\<open>int\<close> are \<^verbatim>\<open>0\<close> to \<^verbatim>\<open>9\<close>;
  the white space of \<^verbatim>\<open>str.strip\<close> and of \<^verbatim>\<open>\s\<close> is the twelve characters of
  \<open>is_space\<close>; \<^verbatim>\<open>int\<close> skips only eight of them around a literal (the four
  separators \<^verbatim>\<open>\x1c\<close> to \<^verbatim>\<open>\x1f\<close> are not skipped); \<^verbatim>\<open>str.splitlines\<close> breaks at
  the eight characters of \<open>is_linebreak\<close> and takes \<^verbatim>\<open>\r\n\<close> as one break.
  Python integers are unbounded and are modelled by \<^typ>\<open>int\<close>. The interpreter
  refuses to convert a literal of more than \<^verbatim>\<open>sys.get_int_max_str_digits()\<close> digits
  and raises \<^verbatim>\<open>ValueError\<close>; the script does not change the limit, so it is the
  default \<^verbatim>\<open>sys.int_info.default_max_str_digits\<close>, 4300.
\<close>

datatype error = ValueError | KeyError | FileNotFoundError

definition TAB :: char where
  "TAB = CHR 0x09"

definition is_digit :: "char \<Rightarrow> bool" where
  "is_digit c = (c \<in> set ''0123456789'')"

definition is_space :: "char \<Rightarrow> bool" where
  "is_space c = (c \<in> set [CHR 0x09, CHR 0x0A, CHR 0x0B, CHR 0x0C, CHR 0x0D,
                            CHR 0x1C, CHR 0x1D, CHR 0x1E, CHR 0x1F, CHR 0x20,
                            CHR 0x85, CHR 0xA0])"

definition is_int_space :: "char \<Rightarrow> bool" where
  "is_int_space c = (c \<in> set [CHR 0x09, CHR 0x0A, CHR 0x0B, CHR 0x0C, CHR 0x0D,
                                CHR 0x20, CHR 0x85, CHR 0xA0])"

definition is_linebreak :: "char \<Rightarrow> bool" where
  "is_linebreak c = (c \<in> set [CHR 0x0A, CHR 0x0B, CHR 0x0C, CHR 0x0D,
                                CHR 0x1C, CHR 0x1D, CHR 0x1E, CHR 0x85])"

definition digit_val :: "char \<Rightarrow> int" where
  "digit_val c = int (of_char c) - 48"

text \<open>\<^verbatim>\<open>s.strip()\<close>: white space removed at both ends.\<close>

definition strip :: "string \<Rightarrow> string" where
  "strip s = rev (dropWhile is_space (rev (dropWhile is_space s)))"

text \<open>
  \<^verbatim>\<open>s.splitlines()\<close>: the first argument is the line being collected. A break ends
  the line; text after the last break is a line only when it is not empty.
\<close>

fun splitlines_from :: "string \<Rightarrow> string \<Rightarrow> string list" where
  "splitlines_from cur [] = (if cur = [] then [] else [cur])"
| "splitlines_from cur [c] = (if is_linebreak c then [cur] else [cur @ [c]])"
| "splitlines_from cur (c # d # cs) =
     (if c = CHR 0x0D \<and> d = CHR 0x0A then cur # splitlines_from [] cs
      else if is_linebreak c then cur # splitlines_from [] (d # cs)
      else splitlines_from (cur @ [c]) (d # cs))"

definition splitlines :: "string \<Rightarrow> string list" where
  "splitlines s = splitlines_from [] s"

text \<open>\<^verbatim>\<open>s.split(sep)\<close> for a one-character separator: never an empty list.\<close>

fun split_from :: "char \<Rightarrow> string \<Rightarrow> string \<Rightarrow> string list" where
  "split_from sep cur [] = [cur]"
| "split_from sep cur (c # cs) =
     (if c = sep then cur # split_from sep [] cs else split_from sep (cur @ [c]) cs)"

definition split :: "char \<Rightarrow> string \<Rightarrow> string list" where
  "split sep s = split_from sep [] s"

text \<open>
  \<^verbatim>\<open>int(s)\<close> in base ten: optional white space, an optional sign, digits with single
  underscores allowed between two digits, optional white space. \<open>None\<close> is the
  \<^verbatim>\<open>ValueError\<close> of a string that is not such a literal, or that has more digits
  (leading zeros counted, underscores not) than the limit.
\<close>

definition int_max_str_digits :: nat where
  "int_max_str_digits = 4300"

fun int_digits :: "int \<Rightarrow> string \<Rightarrow> int option" where
  "int_digits acc [] = Some acc"
| "int_digits acc (c # cs) =
     (if is_digit c then int_digits (acc * 10 + digit_val c) cs
      else if c = CHR ''_'' then
        (case cs of
           [] \<Rightarrow> None
         | d # ds \<Rightarrow> if is_digit d then int_digits (acc * 10 + digit_val d) ds else None)
      else None)"

definition int_unsigned :: "string \<Rightarrow> int option" where
  "int_unsigned s =
     (case s of [] \<Rightarrow> None
      | c # cs \<Rightarrow>
          if is_digit c \<and> length (filter is_digit s) \<le> int_max_str_digits
          then int_digits (digit_val c) cs else None)"

definition py_int :: "string \<Rightarrow> int option" where
  "py_int s =
     (let t = rev (dropWhile is_int_space (rev (dropWhile is_int_space s)))
      in case t of
           [] \<Rightarrow> None
         | c # cs \<Rightarrow>
             if c = CHR ''+'' then int_unsigned cs
             else if c = CHR ''-'' then map_option uminus (int_unsigned cs)
             else int_unsigned t)"

section \<open>The two line patterns\<close>

text \<open>
  Both patterns start with the group \<^verbatim>\<open>(\d{4}|\d{3}|\d{2}|\d{1})\<close>. The matcher tries
  the alternatives in the order written; when the rest of the pattern fails after an
  alternative it backtracks to the next one. \<open>match_digits n\<close> is \<^verbatim>\<open>\d{n}\<close> at the
  start of the string; \<open>alt_digits\<close> is the alternation, with the rest of the
  pattern as the continuation \<open>k\<close>, which receives the text of the group and the
  text after it.
\<close>

definition match_digits :: "nat \<Rightarrow> string \<Rightarrow> (string \<times> string) option" where
  "match_digits n s =
     (if n \<le> length s \<and> list_all is_digit (take n s) then Some (take n s, drop n s)
      else None)"

fun alt_digits :: "nat list \<Rightarrow> (string \<Rightarrow> string \<Rightarrow> 'a option) \<Rightarrow> string \<Rightarrow> 'a option" where
  "alt_digits [] k s = None"
| "alt_digits (n # ns) k s =
     (case match_digits n s of
        None \<Rightarrow> alt_digits ns k s
      | Some (g, rest) \<Rightarrow>
          (case k g rest of
             Some r \<Rightarrow> Some r
           | None \<Rightarrow> alt_digits ns k s))"

text \<open>\<^verbatim>\<open>re.match(r'^(\d{4}|\d{3}|\d{2}|\d{1})\t', line)\<close>: the group, when it matches.\<close>

definition then_tab :: "string \<Rightarrow> string \<Rightarrow> string option" where
  "then_tab g rest = (case rest of [] \<Rightarrow> None | c # _ \<Rightarrow> if c = TAB then Some g else None)"

definition match_tab :: "string \<Rightarrow> string option" where
  "match_tab line = alt_digits [4, 3, 2, 1] then_tab line"

text \<open>
  \<^verbatim>\<open>re.match(r'^(\d{4}|\d{3}|\d{2}|\d{1})\s+(\d+)', line)\<close>: both groups. The greedy
  \<^verbatim>\<open>\s+\<close> takes the whole run of white space and \<^verbatim>\<open>\d+\<close> the whole run of digits;
  giving back white space cannot help, since \<^verbatim>\<open>\d+\<close> would then start at a
  white-space character.
\<close>

definition then_space_digits :: "string \<Rightarrow> string \<Rightarrow> (string \<times> string) option" where
  "then_space_digits g rest =
     (let ws = takeWhile is_space rest;
          ds = takeWhile is_digit (dropWhile is_space rest)
      in if ws \<noteq> [] \<and> ds \<noteq> [] then Some (g, ds) else None)"

definition match_space :: "string \<Rightarrow> (string \<times> string) option" where
  "match_space line = alt_digits [4, 3, 2, 1] then_space_digits line"

section \<open>parse_il_ts_file\<close>

text \<open>
  The body of the loop over the lines, for one line. \<open>Inr None\<close> is a line that
  appends nothing (\<^verbatim>\<open>continue\<close>, or no branch taken), \<open>Inr (Some p)\<close> appends the
  pair \<open>p\<close>. In the first branch a \<^verbatim>\<open>ValueError\<close> of \<^verbatim>\<open>int\<close> is caught; in the
  second it is not.
\<close>

definition parse_line :: "string \<Rightarrow> error + (int \<times> int) option" where
  "parse_line raw =
     (let line = strip raw in
      if line = [] then Inr None
      else if match_tab line \<noteq> None then
        (let parts = split TAB line in
         if length parts \<ge> 2 then
           (case py_int (parts ! 0) of
              None \<Rightarrow> Inr None
            | Some year_i \<Rightarrow>
                (case py_int (parts ! 1) of
                   None \<Rightarrow> Inr None
                 | Some count_i \<Rightarrow> Inr (Some (year_i, count_i))))
         else Inr None)
      else
        (case match_space line of
           None \<Rightarrow> Inr None
         | Some (g1, g2) \<Rightarrow>
             (case py_int g1 of
                None \<Rightarrow> Inl ValueError
              | Some year_i \<Rightarrow>
                  (case py_int g2 of
                     None \<Rightarrow> Inl ValueError
                   | Some count_i \<Rightarrow> Inr (Some (year_i, count_i))))))"

fun parse_loop :: "string list \<Rightarrow> (int \<times> int) list \<Rightarrow> error + (int \<times> int) list" where
  "parse_loop [] rows = Inr rows"
| "parse_loop (line # lines) rows =
     (case parse_line line of
        Inl e \<Rightarrow> Inl e
      | Inr None \<Rightarrow> parse_loop lines rows
      | Inr (Some p) \<Rightarrow> parse_loop lines (rows @ [p]))"

text \<open>The argument is the text that \<^verbatim>\<open>path.read_text()\<close> returns.\<close>

definition parse_il_ts_file :: "string \<Rightarrow> error + (int \<times> int) list" where
  "parse_il_ts_file text = parse_loop (splitlines (strip text)) []"

section \<open>The master tables\<close>

text \<open>
  A data frame is the list of its rows. The master detailed CSV has the six columns
  below, the columns of the rows that \<^verbatim>\<open>main\<close> appends; the model covers tables with no
  missing cell, whose \<^verbatim>\<open>Year\<close>, \<^verbatim>\<open>Search_Topic_ID\<close> and \<^verbatim>\<open>Record_Count\<close> are
  integers. The integers are mathematical: the 64-bit sums of the table library agree
  with them as long as no sum leaves the 64-bit range.
\<close>

record row =
  Year :: int
  Search_Topic_ID :: int
  Search_Topic :: string
  Search_Level :: string
  Search_Level_Description :: string
  Record_Count :: int

definition TOPIC_MAP :: "(int \<times> string) list" where
  "TOPIC_MAP =
     [(6, ''Ionic Liquids (All)''),
      (7, ''ILs in Electrochemistry''),
      (8, ''ILs in Electrochemical Manufacturing''),
      (9, ''Elevated-T IL Electrochemical Manufacturing'')]"

text \<open>
  \<^verbatim>\<open>df.groupby(keys)[val].sum()\<close>: every row adds its value to the running total of
  its group, a group being created by its first row; the result has its groups in
  ascending order of the key.
\<close>

fun add_to_group :: "'k \<Rightarrow> int \<Rightarrow> ('k \<times> int) list \<Rightarrow> ('k \<times> int) list" where
  "add_to_group k v [] = [(k, v)]"
| "add_to_group k v ((k', s) # gs) =
     (if k = k' then (k', s + v) # gs else (k', s) # add_to_group k v gs)"

definition groupby_sum :: "('r \<Rightarrow> 'k::linorder) \<Rightarrow> ('r \<Rightarrow> int) \<Rightarrow> 'r list \<Rightarrow> ('k \<times> int) list" where
  "groupby_sum key val df =
     sort_key fst (foldl (\<lambda>gs r. add_to_group (key r) (val r) gs) [] df)"

text \<open>
  \<^verbatim>\<open>df.sort_values(['Search_Topic_ID','Search_Level','Year'])\<close>: a stable sort on the
  three columns, compared lexicographically; strings compare by code point.
\<close>

definition sort_values :: "row list \<Rightarrow> row list" where
  "sort_values df = sort_key (\<lambda>r. (Search_Topic_ID r, Search_Level r, Year r)) df"

text \<open>
  A pivot frame: the names of the value columns, and for every row its index
  \<open>(Year, Search_Topic_ID, Search_Topic)\<close> with one cell per value column.
  \<^verbatim>\<open>pivot_table\<close> sums \<^verbatim>\<open>Record_Count\<close> over the groups of index and
  \<^verbatim>\<open>Search_Level\<close>, then spreads the levels over the columns; a cell with no group
  gets \<^verbatim>\<open>fill_value\<close>. \<^verbatim>\<open>reset_index\<close> turns the index into columns and raises
  \<^verbatim>\<open>ValueError\<close> when a value column already has the name of an index level.
\<close>

type_synonym pivot_index = "int \<times> int \<times> string"

type_synonym pivot_frame = "string list \<times> (pivot_index \<times> int list) list"

type_synonym summary_frame = "((int \<times> string \<times> string) \<times> int) list"

definition pivot_index_of :: "row \<Rightarrow> pivot_index" where
  "pivot_index_of r = (Year r, Search_Topic_ID r, Search_Topic r)"

definition pivot_key :: "row \<Rightarrow> pivot_index \<times> string" where
  "pivot_key r = (pivot_index_of r, Search_Level r)"

definition index_names :: "string list" where
  "index_names = [''Year'', ''Search_Topic_ID'', ''Search_Topic'']"

definition fill_value :: int where
  "fill_value = 0"

definition pivot_table :: "row list \<Rightarrow> pivot_frame" where
  "pivot_table df =
     (let agged = groupby_sum pivot_key Record_Count df;
          idx = sort (remdups (map (\<lambda>g. fst (fst g)) agged));
          cols = sort (remdups (map (\<lambda>g. snd (fst g)) agged))
      in (cols,
          map (\<lambda>i. (i, map (\<lambda>c. case map_of agged (i, c) of
                                    None \<Rightarrow> fill_value
                                  | Some v \<Rightarrow> v) cols)) idx))"

definition reset_index :: "pivot_frame \<Rightarrow> error + pivot_frame" where
  "reset_index pf =
     (if list_ex (\<lambda>c. c \<in> set index_names) (fst pf) then Inl ValueError else Inr pf)"

text \<open>
  \<^verbatim>\<open>pivot[cols]\<close>: the columns named, in the order named; \<^verbatim>\<open>KeyError\<close> when one is
  not a column of the frame.
\<close>

definition getitem_columns :: "string list \<Rightarrow> pivot_frame \<Rightarrow> error + pivot_frame" where
  "getitem_columns want pf =
     (if list_all (\<lambda>c. c \<in> set (fst pf)) want
      then Inr (want,
                map (\<lambda>(i, cells). (i, List.map_filter (map_of (zip (fst pf) cells)) want))
                    (snd pf))
      else Inl KeyError)"

section \<open>main\<close>

text \<open>
  The files that \<^verbatim>\<open>main\<close> reads and writes: the three master CSV files and the
  backup of the detailed one; \<open>None\<close> is a file that does not exist. The count
  files are the function \<open>il_ts\<close>: \<open>il_ts topic_id\<close> is the text of the first file
  that the glob \<^verbatim>\<open>{topic_id}_*.txt\<close> finds in \<^verbatim>\<open>IL_TS\<close>, \<open>None\<close> when it finds none.
\<close>

record master_files =
  master_detailed :: "row list option"
  master_detailed_bak :: "row list option"
  master_pivot :: "pivot_frame option"
  master_summary :: "summary_frame option"

definition make_row :: "int \<Rightarrow> string \<Rightarrow> int \<times> int \<Rightarrow> row" where
  "make_row topic_id name p =
     \<lparr>Year = fst p, Search_Topic_ID = topic_id, Search_Topic = name,
      Search_Level = ''TS'', Search_Level_Description = ''Title + Abstract + Keywords'',
      Record_Count = snd p\<rparr>"

text \<open>
  The loop over \<^verbatim>\<open>sorted(TOPIC_MAP.keys())\<close>, with the rows appended so far. The
  name is looked up first (for the unused \<^verbatim>\<open>fname\<close>), then the file is searched.
\<close>

fun append_loop :: "(int \<Rightarrow> string option) \<Rightarrow> int list \<Rightarrow> row list \<Rightarrow> error + row list" where
  "append_loop il_ts [] appended_rows = Inr appended_rows"
| "append_loop il_ts (topic_id # topic_ids) appended_rows =
     (case map_of TOPIC_MAP topic_id of
        None \<Rightarrow> Inl KeyError
      | Some name \<Rightarrow>
          (case il_ts topic_id of
             None \<Rightarrow> append_loop il_ts topic_ids appended_rows
           | Some text \<Rightarrow>
               (case parse_il_ts_file text of
                  Inl e \<Rightarrow> Inl e
                | Inr rows \<Rightarrow>
                    append_loop il_ts topic_ids
                      (appended_rows @ map (make_row topic_id name) rows))))"

definition appended_rows :: "(int \<Rightarrow> string option) \<Rightarrow> error + row list" where
  "appended_rows il_ts = append_loop il_ts (sort (map fst TOPIC_MAP)) []"

definition df_master_clean :: "row list \<Rightarrow> row list" where
  "df_master_clean df_master =
     filter (\<lambda>r. \<not> (Search_Topic_ID r \<in> set (map fst TOPIC_MAP) \<and> Search_Level r = ''TS''))
       df_master"

definition df_combined :: "row list \<Rightarrow> row list \<Rightarrow> row list" where
  "df_combined df_master df_new = sort_values (df_master_clean df_master @ df_new)"

definition pivot_cols :: "pivot_frame \<Rightarrow> string list" where
  "pivot_cols pivot = filter (\<lambda>c. c \<in> set (fst pivot)) [''KW'', ''TI'', ''TS'']"

definition summary_key :: "row \<Rightarrow> int \<times> string \<times> string" where
  "summary_key r = (Search_Topic_ID r, Search_Topic r, Search_Level r)"

definition summary_of :: "row list \<Rightarrow> summary_frame" where
  "summary_of df = groupby_sum summary_key Record_Count df"

text \<open>
  The result is the exception that ended \<^verbatim>\<open>main\<close>, if any, and the files as they are
  then: a file written before the exception stays written.
\<close>

definition main :: "(int \<Rightarrow> string option) \<Rightarrow> master_files \<Rightarrow> error option \<times> master_files" where
  "main il_ts fs =
     (let fs1 = (case master_detailed fs of
                   None \<Rightarrow> fs
                 | Some bytes \<Rightarrow> fs\<lparr>master_detailed_bak := Some bytes\<rparr>)
      in case master_detailed fs1 of
           None \<Rightarrow> (Some FileNotFoundError, fs1)
         | Some df_master \<Rightarrow>
             (case appended_rows il_ts of
                Inl e \<Rightarrow> (Some e, fs1)
              | Inr df_new \<Rightarrow>
                  if df_new \<noteq> [] then
                    (let combined = df_combined df_master df_new;
                         fs2 = fs1\<lparr>master_detailed := Some combined\<rparr>
                     in case reset_index (pivot_table combined) of
                          Inl e \<Rightarrow> (Some e, fs2)
                        | Inr pivot \<Rightarrow>
                            (case getitem_columns (pivot_cols pivot) pivot of
                               Inl e \<Rightarrow> (Some e, fs2)
                             | Inr pivot' \<Rightarrow>
                                 (let fs3 = fs2\<lparr>master_pivot := Some pivot'\<rparr>
                                  in (None, fs3\<lparr>master_summary := Some (summary_of combined)\<rparr>))))
                  else (None, fs1)))"

section \<open>The dashboard's filter and aggregation\<close>





section \<open>The statements of the specification, in its words\<close>

text \<open>
  A line here is a line of the file after \<^verbatim>\<open>strip\<close>. It begins with a 1-to-4-digit
  number when its leading run of digits has one to four digits.
\<close>

definition leading_digits :: "string \<Rightarrow> string" where
  "leading_digits line = takeWhile is_digit line"

definition after_digits :: "string \<Rightarrow> string" where
  "after_digits line = dropWhile is_digit line"

definition dec_value :: "string \<Rightarrow> int" where
  "dec_value ds = foldl (\<lambda>a c. a * 10 + digit_val c) 0 ds"

definition begins_with_number :: "string \<Rightarrow> bool" where
  "begins_with_number line =
     (1 \<le> length (leading_digits line) \<and> length (leading_digits line) \<le> 4)"

definition followed_by_tab :: "string \<Rightarrow> bool" where
  "followed_by_tab line = (case after_digits line of [] \<Rightarrow> False | c # _ \<Rightarrow> c = TAB)"

definition second_tab_field :: "string \<Rightarrow> string" where
  "second_tab_field line =
     takeWhile (\<lambda>c. c \<noteq> TAB) (drop 1 (dropWhile (\<lambda>c. c \<noteq> TAB) line))"

definition digits_after_space :: "string \<Rightarrow> string" where
  "digits_after_space line = takeWhile is_digit (dropWhile is_space (after_digits line))"

definition followed_by_space_digits :: "string \<Rightarrow> bool" where
  "followed_by_space_digits line =
     (takeWhile is_space (after_digits line) \<noteq> [] \<and> digits_after_space line \<noteq> [])"

text \<open>The lines that yield a pair, as the specification words it.\<close>

definition claimed_line :: "string \<Rightarrow> bool" where
  "claimed_line line =
     (begins_with_number line \<and>
      (followed_by_tab line \<and> py_int (second_tab_field line) \<noteq> None \<or>
       followed_by_space_digits line))"

text \<open>
  A line for the second pattern whose digit sequence has more digits than \<^verbatim>\<open>int\<close>
  converts.
\<close>

definition count_too_long :: "string \<Rightarrow> bool" where
  "count_too_long line =
     (begins_with_number line \<and> \<not> followed_by_tab line \<and> followed_by_space_digits line \<and>
      int_max_str_digits < length (digits_after_space line))"

text \<open>
  The pair of a line, with the second pattern tried only on a line that does not begin
  with a number and a tab.
\<close>

definition accepted_pair :: "string \<Rightarrow> (int \<times> int) option" where
  "accepted_pair line =
     (if begins_with_number line \<and> followed_by_tab line then
        map_option (Pair (dec_value (leading_digits line))) (py_int (second_tab_field line))
      else if begins_with_number line \<and> followed_by_space_digits line then
        Some (dec_value (leading_digits line), dec_value (digits_after_space line))
      else None)"










section \<open>Example inputs\<close>

text \<open>
  A master table with a row of topic 6 at scope TS (replaced by the merge), a row of
  topic 6 at scope KW, a row of topic 7 at scope TS, and a row of topic 0 at a scope
  that is none of KW, TI and TS; a count file for topic 6 only.
\<close>

definition ex_master :: "row list" where
  "ex_master =
     [\<lparr>Year = 2020, Search_Topic_ID = 7, Search_Topic = ''ILs in Electrochemistry'',
       Search_Level = ''TS'', Search_Level_Description = ''Title + Abstract + Keywords'',
       Record_Count = 5\<rparr>,
      \<lparr>Year = 2020, Search_Topic_ID = 6, Search_Topic = ''Ionic Liquids (All)'',
       Search_Level = ''TS'', Search_Level_Description = ''Title + Abstract + Keywords'',
       Record_Count = 3\<rparr>,
      \<lparr>Year = 2020, Search_Topic_ID = 6, Search_Topic = ''Ionic Liquids (All)'',
       Search_Level = ''KW'', Search_Level_Description = ''Title + Keywords'',
       Record_Count = 4\<rparr>,
      \<lparr>Year = 2019, Search_Topic_ID = 0, Search_Topic = ''Electrochemistry'',
       Search_Level = ''AB'', Search_Level_Description = ''Abstract'',
       Record_Count = 2\<rparr>]"

definition ex_files :: master_files where
  "ex_files =
     \<lparr>master_detailed = Some ex_master, master_detailed_bak = None,
      master_pivot = None, master_summary = None\<rparr>"

definition ex_il_ts :: "int \<Rightarrow> string option" where
  "ex_il_ts topic_id =
     (if topic_id = 6
      then Some (''Publication Years'' @ [TAB] @ ''Record Count'' @ [CHR 0x0A] @
                 ''2020'' @ [TAB] @ ''10'' @ [CHR 0x0A] @ ''2021 12'')
      else None)"


text \<open>No count file at all; a count file for topic 6 that holds only the header line.\<close>

definition no_il_ts :: "int \<Rightarrow> string option" where
  "no_il_ts topic_id = None"

definition header_il_ts :: "int \<Rightarrow> string option" where
  "header_il_ts topic_id =
     (if topic_id = 6
      then Some (''Publication Years'' @ [TAB] @ ''Record Count'' @ [CHR 0x0A])
      else None)"

section \<open>Properties of the text primitives and of the parser\<close>

lemma digit_val_range: "is_digit c \<Longrightarrow> 0 \<le> digit_val c \<and> digit_val c \<le> 9"
  by (auto simp: is_digit_def digit_val_def)

lemma digit_not_other:
  "is_digit c \<Longrightarrow> \<not> is_space c \<and> \<not> is_int_space c \<and> c \<noteq> TAB \<and> c \<noteq> CHR ''+'' \<and> c \<noteq> CHR ''-'' \<and> c \<noteq> CHR ''_''"
  by (auto simp: is_digit_def is_space_def is_int_space_def TAB_def)

lemma int_digits_all:
  "list_all is_digit ds \<Longrightarrow> int_digits acc ds = Some (foldl (\<lambda>a c. a * 10 + digit_val c) acc ds)"
  by (induction ds arbitrary: acc) simp_all

lemma foldl_digits_bounds:
  "list_all is_digit ds \<Longrightarrow> 0 \<le> acc \<Longrightarrow>
     0 \<le> foldl (\<lambda>a c. a * 10 + digit_val c) acc ds \<and>
     foldl (\<lambda>a c. a * 10 + digit_val c) acc ds < (acc + 1) * 10 ^ length ds"
proof (induction ds arbitrary: acc)
  case Nil
  then show ?case by simp
next
  case (Cons c cs)
  have d: "0 \<le> digit_val c" "digit_val c \<le> 9"
    using Cons.prems(1) digit_val_range by auto
  have "0 \<le> acc * 10 + digit_val c" using d Cons.prems(2) by simp
  from Cons.IH [OF _ this] Cons.prems(1)
  have ih: "0 \<le> foldl (\<lambda>a c. a * 10 + digit_val c) (acc * 10 + digit_val c) cs"
    "foldl (\<lambda>a c. a * 10 + digit_val c) (acc * 10 + digit_val c) cs
       < (acc * 10 + digit_val c + 1) * 10 ^ length cs"
    by auto
  have "(acc * 10 + digit_val c + 1) * 10 ^ length cs \<le> ((acc + 1) * 10) * 10 ^ length cs"
    using d by (intro mult_right_mono) auto
  then have le: "(acc * 10 + digit_val c + 1) * 10 ^ length cs \<le> (acc + 1) * 10 ^ length (c # cs)"
    by (simp add: mult.assoc)
  have "foldl (\<lambda>a c. a * 10 + digit_val c) (acc * 10 + digit_val c) cs
       < (acc + 1) * 10 ^ length (c # cs)"
    using ih(2) le by (rule less_le_trans)
  with ih(1) show ?case by simp
qed

lemma dec_value_bounds:
  "list_all is_digit ds \<Longrightarrow> 0 \<le> dec_value ds \<and> dec_value ds < 10 ^ length ds"
  using foldl_digits_bounds [of ds 0] by (simp add: dec_value_def)

lemma py_int_digits:
  assumes "list_all is_digit ds" and "ds \<noteq> []"
  shows "py_int ds =
     (if length ds \<le> int_max_str_digits then Some (dec_value ds) else None)"
proof -
  obtain c cs where ds: "ds = c # cs" using assms(2) by (cases ds) auto
  have c: "is_digit c" and cs: "list_all is_digit cs" using assms(1) ds by auto
  have l: "is_digit (last ds)" using assms by (simp add: list_all_iff)
  have f: "filter is_digit ds = ds" using assms(1) by (simp add: list_all_iff)
  have 1: "dropWhile is_int_space ds = ds"
    using c digit_not_other ds by simp
  have 2: "dropWhile is_int_space (rev ds) = rev ds"
    using l digit_not_other assms(2)
    by (cases "rev ds") (auto simp: last_rev hd_rev dest!: arg_cong [where f = hd])
  have "py_int ds = (case ds of [] \<Rightarrow> None
         | c # cs \<Rightarrow>
             if c = CHR ''+'' then int_unsigned cs
             else if c = CHR ''-'' then map_option uminus (int_unsigned cs)
             else int_unsigned ds)"
    unfolding py_int_def 1 2 Let_def by (simp split: list.splits)
  also have "\<dots> = int_unsigned ds"
    using c digit_not_other by (simp add: ds)
  also have "\<dots> = (if length ds \<le> int_max_str_digits then int_digits (digit_val c) cs else None)"
    unfolding int_unsigned_def f using c by (simp add: ds)
  also have "int_digits (digit_val c) cs = Some (dec_value ds)"
    using cs c by (simp add: int_digits_all dec_value_def ds)
  finally show ?thesis .
qed

lemma py_int_year:
  assumes "begins_with_number line"
  shows "py_int (leading_digits line) = Some (dec_value (leading_digits line))"
proof -
  have "list_all is_digit (leading_digits line)"
    by (auto simp: leading_digits_def list_all_iff dest: set_takeWhileD)
  moreover have "leading_digits line \<noteq> []" "length (leading_digits line) \<le> int_max_str_digits"
    using assms by (auto simp: begins_with_number_def int_max_str_digits_def)
  ultimately show ?thesis by (simp add: py_int_digits)
qed

lemma match_digits_run:
  "match_digits n s =
     (if n \<le> length (takeWhile is_digit s) then Some (take n s, drop n s) else None)"
proof -
  have "(n \<le> length s \<and> list_all is_digit (take n s)) \<longleftrightarrow> n \<le> length (takeWhile is_digit s)"
  proof
    assume a: "n \<le> length s \<and> list_all is_digit (take n s)"
    have "takeWhile is_digit s = takeWhile is_digit (take n s @ drop n s)" by simp
    also have "\<dots> = take n s @ takeWhile is_digit (drop n s)"
      using a by (intro takeWhile_append2) (simp add: list_all_iff)
    finally show "n \<le> length (takeWhile is_digit s)" using a by simp
  next
    assume b: "n \<le> length (takeWhile is_digit s)"
    have len: "length (takeWhile is_digit s) \<le> length s" by (rule length_takeWhile_le)
    have "take n s = take n (takeWhile is_digit s)"
      using b by (metis takeWhile_eq_take take_take min.absorb1)
    then have "set (take n s) \<subseteq> set (takeWhile is_digit s)"
      by (simp add: set_take_subset)
    then have "list_all is_digit (take n s)"
      by (auto simp: list_all_iff dest: set_takeWhileD)
    with b len show "n \<le> length s \<and> list_all is_digit (take n s)" by simp
  qed
  then show ?thesis by (simp add: match_digits_def)
qed

lemma drop_in_digit_run:
  assumes "n < length (takeWhile is_digit s)"
  shows "drop n s \<noteq> [] \<and> is_digit (hd (drop n s))"
proof -
  have len: "length (takeWhile is_digit s) \<le> length s" by (rule length_takeWhile_le)
  have n: "n < length s" using assms len by simp
  have "takeWhile is_digit s ! n \<in> set (takeWhile is_digit s)" using assms by simp
  then have "is_digit (takeWhile is_digit s ! n)" by (rule set_takeWhileD [THEN conjunct2])
  then have "is_digit (s ! n)" using assms by (simp add: takeWhile_nth)
  then show ?thesis using n by (simp add: hd_drop_conv_nth)
qed

lemma alt_digits_run:
  assumes k: "\<And>g rest. rest = [] \<or> is_digit (hd rest) \<Longrightarrow> k g rest = None"
  shows "alt_digits ns k s =
     (if length (takeWhile is_digit s) \<in> set ns
      then k (takeWhile is_digit s) (dropWhile is_digit s) else None)"
proof (induction ns)
  case Nil
  then show ?case by simp
next
  case (Cons n ns)
  let ?m = "length (takeWhile is_digit s)"
  consider "?m < n" | "n = ?m" | "n < ?m" by linarith
  then show ?case
  proof cases
    case 1
    then show ?thesis using Cons.IH by (simp add: match_digits_run)
  next
    case 2
    have md: "match_digits n s = Some (takeWhile is_digit s, dropWhile is_digit s)"
      using 2 takeWhile_eq_take [of is_digit s] dropWhile_eq_drop [of is_digit s]
      by (simp add: match_digits_run)
    show ?thesis
    proof (cases "k (takeWhile is_digit s) (dropWhile is_digit s)")
      case None
      then have "alt_digits (n # ns) k s = alt_digits ns k s"
        by (simp add: md)
      then show ?thesis using None Cons.IH 2 by simp
    next
      case (Some r)
      then have "alt_digits (n # ns) k s = Some r"
        by (simp add: md)
      then show ?thesis using Some 2 by simp
    qed
  next
    case 3
    then have "k (take n s) (drop n s) = None"
      using drop_in_digit_run [OF 3] k by blast
    then show ?thesis using 3 Cons.IH by (simp add: match_digits_run)
  qed
qed

lemma then_tab_none: "rest = [] \<or> is_digit (hd rest) \<Longrightarrow> then_tab g rest = None"
  using digit_not_other by (cases rest) (auto simp: then_tab_def)

lemma then_space_digits_none:
  "rest = [] \<or> is_digit (hd rest) \<Longrightarrow> then_space_digits g rest = None"
  using digit_not_other by (cases rest) (auto simp: then_space_digits_def)

lemma alt_digits_4321:
  assumes "\<And>g rest. rest = [] \<or> is_digit (hd rest) \<Longrightarrow> k g rest = None"
  shows "alt_digits [4, 3, 2, 1] k s =
     (if 1 \<le> length (takeWhile is_digit s) \<and> length (takeWhile is_digit s) \<le> 4
      then k (takeWhile is_digit s) (dropWhile is_digit s) else None)"
proof -
  have "n \<in> set [4, 3, 2, 1] \<longleftrightarrow> 1 \<le> n \<and> n \<le> 4" for n :: nat
    by auto
  then show ?thesis
    using alt_digits_run [of k "[4, 3, 2, 1]" s, OF assms] by simp
qed

lemma match_tab_iff:
  "match_tab line \<noteq> None \<longleftrightarrow> begins_with_number line \<and> followed_by_tab line"
proof -
  have eq: "match_tab line =
     (if begins_with_number line then then_tab (leading_digits line) (after_digits line)
      else None)"
    unfolding match_tab_def begins_with_number_def leading_digits_def after_digits_def
    by (rule alt_digits_4321) (rule then_tab_none)
  show ?thesis
    unfolding eq followed_by_tab_def then_tab_def
    by (cases "after_digits line") simp_all
qed

lemma match_space_eq:
  "match_space line =
     (if begins_with_number line \<and> followed_by_space_digits line
      then Some (leading_digits line, digits_after_space line) else None)"
proof -
  have eq: "match_space line =
     (if begins_with_number line
      then then_space_digits (leading_digits line) (after_digits line) else None)"
    unfolding match_space_def begins_with_number_def leading_digits_def after_digits_def
    by (rule alt_digits_4321) (rule then_space_digits_none)
  show ?thesis
    unfolding eq followed_by_space_digits_def then_space_digits_def digits_after_space_def
    by (simp add: Let_def)
qed

lemma split_from_eq:
  "split_from sep cur s =
     (cur @ takeWhile (\<lambda>c. c \<noteq> sep) s) #
     (case dropWhile (\<lambda>c. c \<noteq> sep) s of [] \<Rightarrow> [] | _ # r \<Rightarrow> split_from sep [] r)"
  by (induction s arbitrary: cur) simp_all

lemma split_parts:
  assumes "begins_with_number line" and "followed_by_tab line"
  shows "length (split TAB line) \<ge> 2"
    and "split TAB line ! 0 = leading_digits line"
    and "split TAB line ! 1 = second_tab_field line"
proof -
  obtain r where r: "dropWhile is_digit line = TAB # r"
    using assms(2) by (auto simp: followed_by_tab_def after_digits_def split: list.splits)
  have line: "line = takeWhile is_digit line @ TAB # r"
    using takeWhile_dropWhile_id [of is_digit line] r by simp
  have nt: "\<And>c. c \<in> set (takeWhile is_digit line) \<Longrightarrow> c \<noteq> TAB"
    using digit_not_other by (auto dest: set_takeWhileD)
  have tw: "takeWhile (\<lambda>c. c \<noteq> TAB) line = takeWhile is_digit line"
    by (subst line, subst takeWhile_append2) (use nt in auto)
  have dw: "dropWhile (\<lambda>c. c \<noteq> TAB) line = TAB # r"
    by (subst line, subst dropWhile_append2) (use nt in auto)
  have sp: "split TAB line = takeWhile is_digit line # split_from TAB [] r"
    unfolding split_def by (subst split_from_eq) (simp add: tw dw)
  have sp2: "split_from TAB [] r = takeWhile (\<lambda>c. c \<noteq> TAB) r #
     (case dropWhile (\<lambda>c. c \<noteq> TAB) r of [] \<Rightarrow> [] | _ # r' \<Rightarrow> split_from TAB [] r')"
    by (subst split_from_eq) simp
  show "length (split TAB line) \<ge> 2" unfolding sp by (subst sp2) simp
  show "split TAB line ! 0 = leading_digits line" by (simp add: sp leading_digits_def)
  show "split TAB line ! 1 = second_tab_field line"
    unfolding sp by (subst sp2) (simp add: second_tab_field_def dw)
qed

lemma leading_digits_all: "list_all is_digit (leading_digits line)"
  by (auto simp: leading_digits_def list_all_iff dest: set_takeWhileD)

lemma digits_after_space_all: "list_all is_digit (digits_after_space line)"
  by (auto simp: digits_after_space_def list_all_iff dest: set_takeWhileD)

lemma strip_empty_accepted: "accepted_pair [] = None"
  by (simp add: accepted_pair_def begins_with_number_def leading_digits_def)

lemma parse_line_eq:
  "parse_line raw =
     (if count_too_long (strip raw) then Inl ValueError else Inr (accepted_pair (strip raw)))"
proof -
  let ?l = "strip raw"
  show ?thesis
  proof (cases "begins_with_number ?l \<and> followed_by_tab ?l")
    case True
    then have ne: "?l \<noteq> []" by (auto simp: begins_with_number_def leading_digits_def)
    have y: "py_int (leading_digits ?l) = Some (dec_value (leading_digits ?l))"
      using True by (simp add: py_int_year)
    have m: "match_tab ?l \<noteq> None" using True match_tab_iff [of ?l] by blast
    have n: "\<not> count_too_long ?l" using True by (simp add: count_too_long_def)
    show ?thesis
      using True ne m n split_parts [of ?l] y
      by (simp add: parse_line_def accepted_pair_def Let_def split: option.splits)
  next
    case False
    then have m: "match_tab ?l = None" using match_tab_iff [of ?l] by blast
    show ?thesis
    proof (cases "begins_with_number ?l \<and> followed_by_space_digits ?l")
      case True
      have y: "py_int (leading_digits ?l) = Some (dec_value (leading_digits ?l))"
        using True by (simp add: py_int_year)
      have c: "py_int (digits_after_space ?l) =
          (if length (digits_after_space ?l) \<le> int_max_str_digits
           then Some (dec_value (digits_after_space ?l)) else None)"
        using True by (intro py_int_digits digits_after_space_all)
          (auto simp: followed_by_space_digits_def)
      have ne: "?l \<noteq> []" using True by (auto simp: begins_with_number_def leading_digits_def)
      have t: "count_too_long ?l \<longleftrightarrow> \<not> length (digits_after_space ?l) \<le> int_max_str_digits"
        using True False by (auto simp: count_too_long_def)
      show ?thesis
        using True False m y c ne t
        by (simp add: parse_line_def accepted_pair_def Let_def match_space_eq)
    next
      case nospace: False
      have n: "\<not> count_too_long ?l" using nospace by (auto simp: count_too_long_def)
      show ?thesis
        using nospace False m n
        by (auto simp: parse_line_def accepted_pair_def Let_def match_space_eq strip_empty_accepted)
    qed
  qed
qed

lemma parse_loop_eq:
  "parse_loop lines rows =
     (if list_ex count_too_long (map strip lines) then Inl ValueError
      else Inr (rows @ List.map_filter accepted_pair (map strip lines)))"
  by (induction lines arbitrary: rows) (simp_all add: parse_line_eq split: option.splits)

lemma parse_il_ts_file_eq:
  "parse_il_ts_file text =
     (if list_ex count_too_long (map strip (splitlines (strip text))) then Inl ValueError
      else Inr (List.map_filter accepted_pair (map strip (splitlines (strip text)))))"
  by (simp add: parse_il_ts_file_def parse_loop_eq)

lemma accepted_pair_year:
  assumes "accepted_pair line = Some p"
  shows "0 \<le> fst p \<and> fst p \<le> 9999"
proof -
  have b: "begins_with_number line" and y: "fst p = dec_value (leading_digits line)"
    using assms by (auto simp: accepted_pair_def split: if_splits)
  have len: "length (leading_digits line) \<le> 4" using b by (simp add: begins_with_number_def)
  have "(10::int) ^ length (leading_digits line) \<le> 10 ^ 4"
    using len by (intro power_increasing) simp_all
  then show ?thesis
    using dec_value_bounds [OF leading_digits_all, of line] y by simp
qed

lemma accepted_pair_long_number:
  "5 \<le> length (leading_digits line) \<Longrightarrow> accepted_pair line = None"
  by (simp add: accepted_pair_def begins_with_number_def)

lemma is_linebreak_CR: "is_linebreak (CHR 0x0D)"
  by (simp add: is_linebreak_def)

lemma splitlines_from_no_break:
  "\<not> list_ex is_linebreak s \<Longrightarrow>
     splitlines_from cur s = (if cur @ s = [] then [] else [cur @ s])"
  by (induction cur s rule: splitlines_from.induct) (auto simp: is_linebreak_CR)

lemma strip_digit_ends:
  assumes "is_digit c" and "is_digit d"
  shows "strip (c # s @ [d]) = c # s @ [d]"
  using assms digit_not_other by (simp add: strip_def)

text \<open>
  Claim C2, as amended. For every text in which no line for the second pattern has a
  digit sequence longer than the limit of \<^verbatim>\<open>int\<close>, \<open>parse_il_ts_file\<close> returns
  without an error, and its result is, in the order of the lines, one pair for exactly
  those stripped lines that either begin with a 1-to-4-digit number followed by a tab and
  have a second tab-separated field that \<^verbatim>\<open>int\<close> accepts, or do not begin with such a
  number and a tab but begin with a 1-to-4-digit number followed by white space and a
  digit sequence. Every other line is skipped. The pair is the value of the leading number
  and the value of the field, or of the digit sequence.
\<close>

theorem parse_il_ts_file_lines:
  assumes "\<not> list_ex count_too_long (map strip (splitlines (strip text)))"
  shows "parse_il_ts_file text =
     Inr (List.map_filter accepted_pair (map strip (splitlines (strip text))))"
  using assms by (simp add: parse_il_ts_file_def parse_loop_eq)

theorem parse_il_ts_file_lines_witness:
  "\<not> list_ex count_too_long (map strip (splitlines (strip
     (''Publication Years'' @ [TAB] @ ''Record Count'' @ [CHR 0x0A] @
      ''2020'' @ [TAB] @ ''15'' @ [TAB] @ ''3%'' @ [CHR 0x0D, CHR 0x0A] @
      [CHR 0x0A] @ ''2021  7abc'' @ [CHR 0x0A] @ ''2020'' @ [TAB, TAB] @ ''15'' @ [CHR 0x0A])))) \<and>
   parse_il_ts_file
     (''Publication Years'' @ [TAB] @ ''Record Count'' @ [CHR 0x0A] @
      ''2020'' @ [TAB] @ ''15'' @ [TAB] @ ''3%'' @ [CHR 0x0D, CHR 0x0A] @
      [CHR 0x0A] @ ''2021  7abc'' @ [CHR 0x0A] @ ''2020'' @ [TAB, TAB] @ ''15'' @ [CHR 0x0A])
   = Inr [(2020, 15), (2021, 7)]"
proof -
  let ?t = "''Publication Years'' @ [TAB] @ ''Record Count'' @ [CHR 0x0A] @
      ''2020'' @ [TAB] @ ''15'' @ [TAB] @ ''3%'' @ [CHR 0x0D, CHR 0x0A] @
      [CHR 0x0A] @ ''2021  7abc'' @ [CHR 0x0A] @ ''2020'' @ [TAB, TAB] @ ''15'' @ [CHR 0x0A]"
  have h: "\<not> list_ex count_too_long (map strip (splitlines (strip ?t)))"
    by code_simp
  have v: "List.map_filter accepted_pair (map strip (splitlines (strip ?t))) =
      [(2020, 15), (2021, 7)]"
    by code_simp
  show ?thesis using h parse_il_ts_file_lines [OF h] v by simp
qed

text \<open>
  Claim C2 as the specification states it fails twice. The line \<^verbatim>\<open>2020\t\t15\<close> begins
  with a 4-digit number followed by white space and a digit sequence, yet it yields no
  pair, because it matches the tab pattern and its second tab-separated field is empty.
  The line of the digit 1, a space and 4301 digits is such a line too, and
  \<open>parse_il_ts_file\<close> raises \<^verbatim>\<open>ValueError\<close> on it: the conversion in the second branch
  is not guarded.
\<close>

theorem claimed_line_counterexample:
  "map strip (splitlines (strip (''2020'' @ [TAB, TAB] @ ''15''))) = [''2020'' @ [TAB, TAB] @ ''15''] \<and>
   claimed_line (''2020'' @ [TAB, TAB] @ ''15'') \<and>
   parse_il_ts_file (''2020'' @ [TAB, TAB] @ ''15'') = Inr [] \<and>
   claimed_line (''1 '' @ replicate 4301 (CHR ''1'')) \<and>
   parse_il_ts_file (''1 '' @ replicate 4301 (CHR ''1'')) = Inl ValueError"
proof -
  let ?r = "replicate 4300 (CHR ''1'')"
  let ?l = "CHR ''1'' # CHR '' '' # ?r @ [CHR ''1'']"
  have "(4301::nat) = Suc 4300" by simp
  then have "replicate 4301 (CHR ''1'') = CHR ''1'' # ?r" by (simp only: replicate_Suc)
  then have l: "''1 '' @ replicate 4301 (CHR ''1'') = ?l"
    using replicate_append_same [of 4300 "CHR ''1''"] by simp
  have d: "is_digit (CHR ''1'')" and sp: "is_space (CHR '' '')"
    by (simp_all add: is_digit_def is_space_def)
  have st: "strip ?l = ?l"
    using strip_digit_ends [of "CHR ''1''" "CHR ''1''" "CHR '' '' # ?r"] d by simp
  have nb: "\<not> list_ex is_linebreak ?l"
    by (simp add: list_ex_iff is_linebreak_def)
  have lines: "map strip (splitlines (strip ?l)) = [?l]"
    unfolding st splitlines_def splitlines_from_no_break [OF nb] using st by simp
  have ld: "leading_digits ?l = ''1''" and ad: "after_digits ?l = CHR '' '' # ?r @ [CHR ''1'']"
    using d sp digit_not_other [of "CHR '' ''"] by (auto simp: leading_digits_def after_digits_def)
  have das: "digits_after_space ?l = ?r @ [CHR ''1'']"
    unfolding digits_after_space_def ad using d sp digit_not_other [of "CHR ''1''"]
    by (simp add: takeWhile_append2)
  have b: "begins_with_number ?l" by (simp add: begins_with_number_def ld)
  have nt: "\<not> followed_by_tab ?l" by (simp add: followed_by_tab_def ad TAB_def)
  have fs: "followed_by_space_digits ?l"
    unfolding followed_by_space_digits_def das unfolding ad using sp by simp
  have long: "count_too_long ?l"
    by (simp add: count_too_long_def b nt fs das int_max_str_digits_def)
  have "parse_il_ts_file ?l = Inl ValueError"
    unfolding parse_il_ts_file_eq lines using long by simp
  moreover have "claimed_line ?l" by (simp add: claimed_line_def b fs)
  moreover have
    "map strip (splitlines (strip (''2020'' @ [TAB, TAB] @ ''15''))) = [''2020'' @ [TAB, TAB] @ ''15''] \<and>
     claimed_line (''2020'' @ [TAB, TAB] @ ''15'') \<and>
     parse_il_ts_file (''2020'' @ [TAB, TAB] @ ''15'') = Inr []"
    by code_simp
  ultimately show ?thesis unfolding l by blast
qed

text \<open>
  Claim C10. Every pair that \<open>parse_il_ts_file\<close> returns has a year between 0 and
  9999, and a line whose leading number has five or more digits yields no pair: the body
  of the loop appends nothing for it, and the loop goes on as if the line were absent.
\<close>

theorem parse_il_ts_file_year_range:
  "(parse_il_ts_file text = Inr rows \<longrightarrow> (\<forall>p\<in>set rows. 0 \<le> fst p \<and> fst p \<le> 9999)) \<and>
   (5 \<le> length (leading_digits (strip raw)) \<longrightarrow>
      parse_line raw = Inr None \<and> parse_loop (raw # lines) acc = parse_loop lines acc)"
proof -
  have "\<forall>p\<in>set (List.map_filter accepted_pair ls). 0 \<le> fst p \<and> fst p \<le> 9999" for ls
    using accepted_pair_year by (auto simp: List.map_filter_def)
  then have 1: "parse_il_ts_file text = Inr rows \<longrightarrow> (\<forall>p\<in>set rows. 0 \<le> fst p \<and> fst p \<le> 9999)"
    by (auto simp: parse_il_ts_file_eq split: if_splits)
  have 2: "parse_line raw = Inr None" if "5 \<le> length (leading_digits (strip raw))"
    using that
    by (simp add: parse_line_eq accepted_pair_long_number count_too_long_def begins_with_number_def)
  from 1 2 show ?thesis by simp
qed

theorem parse_il_ts_file_year_range_witness:
  "parse_il_ts_file (''9999 1'' @ [CHR 0x0A] @ ''12345 1'') = Inr [(9999, 1)] \<and>
   5 \<le> length (leading_digits (strip ''12345 1'')) \<and> parse_line ''12345 1'' = Inr None \<and>
   parse_loop [''12345 1'', ''7 8''] [] = parse_loop [''7 8''] []"
proof -
  have "5 \<le> length (leading_digits (strip ''12345 1''))" by code_simp
  moreover have "parse_il_ts_file (''9999 1'' @ [CHR 0x0A] @ ''12345 1'') = Inr [(9999, 1)]"
    by code_simp
  ultimately show ?thesis
    using parse_il_ts_file_year_range
      [of "''9999 1'' @ [CHR 0x0A] @ ''12345 1''" "[(9999, 1)]" "''12345 1''" "[''7 8'']" "[]"]
    by simp
qed

section \<open>Properties of the grouped sums\<close>











lemma groupby_sum_sorted: "sorted (map fst (groupby_sum key val df))"
  by (simp add: groupby_sum_def)



section \<open>Properties of the pivot table and of main\<close>









lemma main_no_rows:
  assumes "appended_rows il_ts = Inr []"
  shows "main il_ts fs =
     (case master_detailed fs of
        None \<Rightarrow> (Some FileNotFoundError, fs)
      | Some m \<Rightarrow> (None, fs\<lparr>master_detailed_bak := Some m\<rparr>))"
  using assms by (simp add: main_def Let_def split: option.splits)













lemma append_loop_no_pairs:
  assumes "\<forall>t\<in>set ts. map_of TOPIC_MAP (fst t) = Some (snd t)"
    and "\<forall>t\<in>set ts. \<forall>body. il_ts (fst t) = Some body \<longrightarrow> parse_il_ts_file body = Inr []"
  shows "append_loop il_ts (map fst ts) acc = Inr acc"
  using assms
proof (induction ts)
  case Nil
  then show ?case by simp
next
  case (Cons t ts)
  then have ih: "append_loop il_ts (map fst ts) acc = Inr acc" by simp
  have name: "map_of TOPIC_MAP (fst t) = Some (snd t)" using Cons.prems(1) by simp
  show ?case
  proof (cases "il_ts (fst t)")
    case None
    then show ?thesis by (simp add: name ih)
  next
    case (Some body)
    then have "parse_il_ts_file body = Inr []" using Cons.prems(2) by simp
    then show ?thesis using Some by (simp add: name ih)
  qed
qed

text \<open>
  Claim C8. When no pair is parsed from any topic's count file, as when no topic has a
  count file, no row is appended and \<open>main\<close> leaves the detailed, the pivot and the
  summary file as they were.
\<close>

theorem no_rows_no_write:
  assumes "\<forall>t\<in>set TOPIC_MAP. \<forall>body. il_ts (fst t) = Some body \<longrightarrow>
             parse_il_ts_file body = Inr []"
  shows "appended_rows il_ts = Inr [] \<and>
         master_detailed (snd (main il_ts fs)) = master_detailed fs \<and>
         master_pivot (snd (main il_ts fs)) = master_pivot fs \<and>
         master_summary (snd (main il_ts fs)) = master_summary fs"
proof -
  have s: "sort (map fst TOPIC_MAP) = map fst TOPIC_MAP" by (simp add: TOPIC_MAP_def)
  have "\<forall>t\<in>set TOPIC_MAP. map_of TOPIC_MAP (fst t) = Some (snd t)"
    by (simp add: TOPIC_MAP_def)
  then have a: "appended_rows il_ts = Inr []"
    unfolding appended_rows_def s using assms by (rule append_loop_no_pairs)
  show ?thesis
    using a by (simp add: main_no_rows [OF a] split: option.splits)
qed

theorem no_rows_no_write_witness:
  "parse_il_ts_file (''Publication Years'' @ [TAB] @ ''Record Count'' @ [CHR 0x0A]) = Inr [] \<and>
   appended_rows header_il_ts = Inr [] \<and>
   master_detailed (snd (main header_il_ts ex_files)) = master_detailed ex_files \<and>
   master_pivot (snd (main header_il_ts ex_files)) = master_pivot ex_files \<and>
   master_summary (snd (main header_il_ts ex_files)) = master_summary ex_files \<and>
   appended_rows no_il_ts = Inr [] \<and>
   master_detailed (snd (main no_il_ts ex_files)) = master_detailed ex_files \<and>
   master_pivot (snd (main no_il_ts ex_files)) = master_pivot ex_files \<and>
   master_summary (snd (main no_il_ts ex_files)) = master_summary ex_files"
proof -
  have p: "parse_il_ts_file (''Publication Years'' @ [TAB] @ ''Record Count'' @ [CHR 0x0A]) = Inr []"
    by code_simp
  have h: "\<forall>t\<in>set TOPIC_MAP. \<forall>body. header_il_ts (fst t) = Some body \<longrightarrow>
      parse_il_ts_file body = Inr []"
    using p by (simp add: header_il_ts_def)
  have n: "\<forall>t\<in>set TOPIC_MAP. \<forall>body. no_il_ts (fst t) = Some body \<longrightarrow>
      parse_il_ts_file body = Inr []"
    by (simp add: no_il_ts_def)
  show ?thesis
    using p no_rows_no_write [OF h, of ex_files] no_rows_no_write [OF n, of ex_files]
    by simp
qed

















text \<open>
  Claim C1 fails on the code. The mask of \<open>df_master_clean\<close> removes the TS rows of
  every topic of the topic map, also of a topic whose file was not found. On the example,
  topic 7 has no count file and one prior TS row; after the merge the detailed
  table has no row of topic 7.
\<close>

theorem main_drops_rows_of_topic_without_file:
  "ex_il_ts 7 = None \<and>
   map Record_Count (filter (\<lambda>r. Search_Topic_ID r = 7 \<and> Search_Level r = ''TS'') ex_master) = [5] \<and>
   map_option (filter (\<lambda>r. Search_Topic_ID r = 7))
     (master_detailed (snd (main ex_il_ts ex_files))) = Some []"
  by code_simp

end
